theory Spec2Isabelle
  imports Main
begin

section \<open>libnmap/process.py: the NmapProcess runner\<close>

text \<open>
  A shallow embedding of the class \<^verbatim>\<open>NmapProcess\<close> of \<^verbatim>\<open>libnmap/process.py\<close>.
  The object is a record, every method takes the object and returns the updated object,
  a raised exception is a value of the type \<open>exn\<close>, and everything the methods ask of the
  operating system, of the Python library or of the child process is read from an explicit
  environment.
\<close>

subsection \<open>Python values and exceptions\<close>

text \<open>
  The progress and timestamp attributes hold the integer \<^verbatim>\<open>0\<close> or \<^verbatim>\<open>100\<close> when the code
  assigns them, and a string when they are copied from an XML attribute.
\<close>

datatype pyval = PyInt int | PyStr string

text \<open>
  The \<^verbatim>\<open>event_callback\<close> argument of the constructor: \<^verbatim>\<open>None\<close>, a callable (its name and
  its truth value) or any other object (its truth value).
\<close>

datatype pyobj = PyNone | PyCallable string bool | PyOther bool

text \<open>The \<^verbatim>\<open>targets\<close> argument: a \<^verbatim>\<open>str\<close>, a \<^verbatim>\<open>list\<close> of strings, or an object of another type.\<close>

datatype targets_arg = TStr string | TList "string list" | TOther

datatype exn =
    EnvironmentError nat string
  | Exception string
  | KeyError string
  | IndexError
  | ValueError
  | OSError
  | Empty

text \<open>
  The five state constants are the integers \<^verbatim>\<open>range(5)\<close>, assigned in this order in
  the constructor.
\<close>

datatype lifecycle = DONE | READY | RUNNING | CANCELLED | FAILED

subsection \<open>String operations of the Python library\<close>

text \<open>\<^verbatim>\<open>str.isspace\<close> on one ASCII character.\<close>

definition isspace :: "char \<Rightarrow> bool" where
  "isspace c = (c = CHR '' '' \<or> c = CHR 0x09 \<or> c = CHR 0x0A \<or> c = CHR 0x0B
                \<or> c = CHR 0x0C \<or> c = CHR 0x0D)"

text \<open>
  Cutting a string at every character that satisfies \<open>p\<close>. The result always has at
  least one piece; two adjacent separators give an empty piece.
\<close>

fun split_where :: "(char \<Rightarrow> bool) \<Rightarrow> string \<Rightarrow> string list" where
  "split_where p [] = [[]]"
| "split_where p (x # xs) =
     (if p x then [] # split_where p xs
      else (case split_where p xs of
              [] \<Rightarrow> [[x]]
            | w # ws \<Rightarrow> (x # w) # ws))"

text \<open>\<^verbatim>\<open>s.split(sep)\<close> for a separator of one character.\<close>

definition str_split :: "char \<Rightarrow> string \<Rightarrow> string list" where
  "str_split sep s = split_where (\<lambda>c. c = sep) s"

text \<open>\<^verbatim>\<open>s.split()\<close>: the maximal runs of non-whitespace characters.\<close>

definition str_split_ws :: "string \<Rightarrow> string list" where
  "str_split_ws s = filter (\<lambda>w. w \<noteq> []) (split_where isspace s)"

text \<open>\<^verbatim>\<open>s.replace(" ", "")\<close>.\<close>

definition remove_spaces :: "string \<Rightarrow> string" where
  "remove_spaces s = filter (\<lambda>c. c \<noteq> CHR '' '') s"

text \<open>\<^verbatim>\<open>sep.join(xs)\<close>.\<close>

fun str_join :: "string \<Rightarrow> string list \<Rightarrow> string" where
  "str_join sep [] = []"
| "str_join sep [x] = x"
| "str_join sep (x # y # ys) = x @ sep @ str_join sep (y # ys)"

text \<open>\<^verbatim>\<open>s.lstrip()\<close>.\<close>

definition lstrip :: "string \<Rightarrow> string" where
  "lstrip s = dropWhile isspace s"

text \<open>
  \<^verbatim>\<open>fmt % args\<close> for a format whose only conversions are \<^verbatim>\<open>%s\<close> and whose arguments
  are strings; the code always passes as many arguments as the format has conversions.
\<close>

fun pyformat :: "string \<Rightarrow> string list \<Rightarrow> string" where
  "pyformat (a # b # rest) args =
     (if a = CHR ''%'' \<and> b = CHR ''s'' then
        (case args of
           [] \<Rightarrow> []
         | x # xs \<Rightarrow> x @ pyformat rest xs)
      else a # pyformat (b # rest) args)"
| "pyformat s args = s"

text \<open>
  \<^verbatim>\<open>os.path.join(path, program)\<close> for a relative \<open>program\<close>, which is all the code
  passes (\<^verbatim>\<open>"nmap"\<close> and \<^verbatim>\<open>"sudo"\<close>).
\<close>

definition os_path_join :: "string \<Rightarrow> string \<Rightarrow> string" where
  "os_path_join path program =
     (if path = [] then program
      else if last path = CHR ''/'' then path @ program
      else path @ ''/'' @ program)"

subsection \<open>The environment\<close>

text \<open>One event of the iterator that \<^verbatim>\<open>pulldom.parseString\<close> returns.\<close>

datatype event_kind =
    START_ELEMENT | END_ELEMENT | COMMENT | START_DOCUMENT | END_DOCUMENT
  | PROCESSING_INSTRUCTION | IGNORABLE_WHITESPACE | CHARACTERS

record xmlnode =
  nodeName :: string
  attributes :: "(string \<times> string) list"

text \<open>
  The iterator itself. It is consumed one event at a time: \<open>Next\<close> delivers an event
  and the rest of the iterator, \<open>StopIteration\<close> ends the \<^verbatim>\<open>for\<close> loop, and
  \<open>SAXParseException\<close> is the parser raising when it is asked for the next event.
  \<^verbatim>\<open>pulldom\<close> is a pull parser: on the text \<^verbatim>\<open><nmaprun start="1" version="2">\<close> it
  delivers the start of the document and the start of the element, and raises only
  afterwards, for the element that is never closed.
\<close>

datatype domstream =
    Next event_kind xmlnode domstream
  | StopIteration
  | SAXParseException

text \<open>What \<^verbatim>\<open>self.__io_queue.get(timeout=1)\<close> does.\<close>

datatype get_result = Got string | RaisedEmpty | RaisedKeyboardInterrupt

text \<open>
  The host: the search path and the file system (\<^verbatim>\<open>os.environ\<close>, \<^verbatim>\<open>os.path.exists\<close>,
  \<^verbatim>\<open>os.path.isdir\<close>), the user database (\<^verbatim>\<open>pwd.getpwnam\<close>, true when the user
  exists), \<^verbatim>\<open>shlex.split\<close> (\<open>None\<close> when it raises \<^verbatim>\<open>ValueError\<close>),
  \<^verbatim>\<open>subprocess.Popen\<close> (false when it raises \<^verbatim>\<open>OSError\<close>) and \<^verbatim>\<open>pulldom.parseString\<close>.
\<close>

record host =
  environ_PATH :: "string option"
  path_exists :: "string \<Rightarrow> bool"
  path_isdir :: "string \<Rightarrow> bool"
  getpwnam :: "string \<Rightarrow> bool"
  shlex_split :: "string \<Rightarrow> string list option"
  popen :: "string list \<Rightarrow> bool"
  parseString :: "string \<Rightarrow> domstream"

text \<open>
  The child process and its two reader threads, as the consumption loop observes them.
  At the \<open>i\<close>-th evaluation of the loop condition \<open>polls i\<close> is the result of
  \<^verbatim>\<open>self.__nmap_proc.poll()\<close> (\<open>None\<close> while the child runs) and \<open>empties i\<close> the
  result of \<^verbatim>\<open>self.__io_queue.empty()\<close>; \<open>gets i\<close> is what the \<^verbatim>\<open>get\<close> of that
  iteration does. \<open>last_poll\<close> is the result of \<^verbatim>\<open>poll()\<close> after the loop and
  \<open>err_get\<close> that of \<^verbatim>\<open>self.__ioerr_queue.get(timeout=2)\<close>: a line, or \<open>None\<close>
  when nothing arrives within the two seconds and \<^verbatim>\<open>get\<close> raises \<^verbatim>\<open>Empty\<close>.
\<close>

record child =
  polls :: "nat \<Rightarrow> int option"
  empties :: "nat \<Rightarrow> bool"
  gets :: "nat \<Rightarrow> get_result"
  last_poll :: "int option"
  err_get :: "string option"

subsection \<open>The object\<close>

text \<open>A \<^verbatim>\<open>subprocess.Popen\<close> object, with the argument list it was started with.\<close>

datatype popen_handle = Popen "string list"

text \<open>
  A \<^verbatim>\<open>Queue\<close> object as \<^verbatim>\<open>Queue()\<close> creates it: the items it holds at creation.
  What the reader threads put in later is seen through \<open>empties\<close>, \<open>gets\<close> and
  \<open>err_get\<close>.
\<close>

datatype queue = Queue "string list"

text \<open>
  The attributes of the object. \<^verbatim>\<open>nmap_version\<close> and the two queues are not assigned by
  the constructor: until the first \<^verbatim>\<open>_run_init\<close> they do not exist (\<open>None\<close>).
  \<open>nmap_event_callback\<close> holds the name of the stored callable, or \<open>None\<close>.
\<close>

record NmapProcess =
  nmap_proc :: "popen_handle option"
  nmap_rc :: "int option"
  nmap_binary_name :: string
  nmap_fixed_options :: string
  nmap_binary :: string
  sudo_run_prefix :: string
  nmap_targets :: "string list"
  nmap_dynamic_options :: string
  nmap_command_line :: string
  nmap_event_callback :: "string option"
  state :: lifecycle
  starttime :: pyval
  endtime :: pyval
  progress :: pyval
  etc :: pyval
  elapsed :: string
  summary :: string
  stdout :: string
  stderr :: string
  nmap_version :: "string option"
  io_queue :: "queue option"
  ioerr_queue :: "queue option"

subsection \<open>\<^verbatim>\<open>_whereis\<close> and \<^verbatim>\<open>get_command_line\<close>\<close>

fun whereis_paths :: "host \<Rightarrow> string \<Rightarrow> string list \<Rightarrow> string option" where
  "whereis_paths h program [] = None"
| "whereis_paths h program (path # paths) =
     (if path_exists h (os_path_join path program)
         \<and> \<not> path_isdir h (os_path_join path program)
      then Some (os_path_join path program)
      else whereis_paths h program paths)"

definition whereis :: "host \<Rightarrow> string \<Rightarrow> string option" where
  "whereis h program =
     whereis_paths h program
       (str_split CHR '':'' (case environ_PATH h of None \<Rightarrow> [] | Some p \<Rightarrow> p))"

text \<open>
  \<^verbatim>\<open>lstrip\<close> is applied to the format string, before the arguments are substituted.
\<close>

definition get_command_line :: "NmapProcess \<Rightarrow> string" where
  "get_command_line self =
     pyformat (lstrip ''%s %s %s %s %s'')
       [sudo_run_prefix self, nmap_binary self, nmap_fixed_options self,
        nmap_dynamic_options self, str_join '' '' (nmap_targets self)]"

subsection \<open>The constructor\<close>

definition unsafe_opts :: "string set" where
  "unsafe_opts = {''-oG'', ''-oN'', ''-iL'', ''-oA'', ''-oS'', ''-oX'',
                  ''--iflist'', ''--resume'', ''--stylesheet'', ''--datadir''}"

definition nmap_not_found :: exn where
  "nmap_not_found =
     EnvironmentError 1 ''nmap is not installed or could not be found in system path''"

definition bad_targets :: exn where
  "bad_targets = Exception ''Supplied target list should be either a string of a list''"

definition unsafe_options :: exn where
  "unsafe_options = Exception ''unsafe options activated while safe_mode is set True''"

text \<open>\<^verbatim>\<open>isinstance(targets, str)\<close>, \<^verbatim>\<open>isinstance(targets, list)\<close>, or the exception.\<close>

definition init_targets :: "targets_arg \<Rightarrow> exn + string list" where
  "init_targets targets =
     (case targets of
        TStr s \<Rightarrow> Inr (str_split CHR '','' (remove_spaces s))
      | TList l \<Rightarrow> Inr l
      | TOther \<Rightarrow> Inl bad_targets)"

text \<open>\<^verbatim>\<open>if event_callback and callable(event_callback)\<close>.\<close>

definition init_callback :: "pyobj \<Rightarrow> string option" where
  "init_callback event_callback =
     (case event_callback of
        PyCallable f truthy \<Rightarrow> (if truthy then Some f else None)
      | PyOther truthy \<Rightarrow> None
      | PyNone \<Rightarrow> None)"

definition init :: "host \<Rightarrow> targets_arg \<Rightarrow> string \<Rightarrow> pyobj \<Rightarrow> bool \<Rightarrow> exn + NmapProcess" where
  "init h targets options event_callback safe_mode =
     (case whereis h ''nmap'' of
        None \<Rightarrow> Inl nmap_not_found
      | Some binary \<Rightarrow>
          (case init_targets targets of
             Inl e \<Rightarrow> Inl e
           | Inr tgts \<Rightarrow>
               if safe_mode \<and> set (str_split_ws options) \<inter> unsafe_opts \<noteq> {}
               then Inl unsafe_options
               else
                 let self = \<lparr> nmap_proc = None, nmap_rc = Some 0,
                              nmap_binary_name = ''nmap'',
                              nmap_fixed_options = ''-oX - -vvv --stats-every 2s'',
                              nmap_binary = binary,
                              sudo_run_prefix = '''',
                              nmap_targets = tgts,
                              nmap_dynamic_options = options,
                              nmap_command_line = '''',
                              nmap_event_callback = init_callback event_callback,
                              state = READY,
                              starttime = PyInt 0, endtime = PyInt 0,
                              progress = PyInt 0, etc = PyInt 0,
                              elapsed = '''', summary = '''',
                              stdout = '''', stderr = '''',
                              nmap_version = None,
                              io_queue = None, ioerr_queue = None \<rparr>
                 in Inr (self\<lparr>nmap_command_line := get_command_line self\<rparr>)))"

subsection \<open>\<^verbatim>\<open>_run_init\<close>\<close>

definition run_init :: "NmapProcess \<Rightarrow> NmapProcess" where
  "run_init self =
     self\<lparr> nmap_proc := None,
           nmap_rc := Some (- 1),
           nmap_command_line := get_command_line self,
           state := READY,
           progress := PyInt 0,
           etc := PyInt 0,
           starttime := PyInt 0,
           endtime := PyInt 0,
           elapsed := '''',
           summary := '''',
           nmap_version := Some '''',
           io_queue := Some (Queue []),
           ioerr_queue := Some (Queue []),
           stdout := '''',
           stderr := '''' \<rparr>"

subsection \<open>\<^verbatim>\<open>__process_event\<close>\<close>

text \<open>
  \<^verbatim>\<open>xmlnode.attributes[k].value\<close>: the value of the attribute, or \<^verbatim>\<open>KeyError\<close>.
\<close>

definition attr :: "xmlnode \<Rightarrow> string \<Rightarrow> exn + string" where
  "attr xmlnode k =
     (case map_of (attributes xmlnode) k of
        None \<Rightarrow> Inl (KeyError k)
      | Some v \<Rightarrow> Inr v)"

text \<open>
  The body of the \<^verbatim>\<open>try\<close>: the \<^verbatim>\<open>for\<close> loop over the events, with the current
  \<^verbatim>\<open>rval\<close> and object. The result says whether the body ended by an exception, and
  gives \<^verbatim>\<open>rval\<close> and the object as they are at that point. The attributes are assigned
  one statement at a time, so an exception in the middle of a branch keeps the
  assignments made before it.
\<close>

fun process_events :: "domstream \<Rightarrow> bool \<Rightarrow> NmapProcess \<Rightarrow> bool \<times> bool \<times> NmapProcess" where
  "process_events StopIteration rval self = (False, rval, self)"
| "process_events SAXParseException rval self = (True, rval, self)"
| "process_events (Next e xmlnode rest) rval self =
     (if e = START_ELEMENT then
        (if nodeName xmlnode = ''taskprogress'' \<and> attributes xmlnode \<noteq> [] then
           (case attr xmlnode ''percent'' of
              Inl _ \<Rightarrow> (True, rval, self)
            | Inr percent_done \<Rightarrow>
                (case attr xmlnode ''etc'' of
                   Inl _ \<Rightarrow> (True, rval, self)
                 | Inr etc_done \<Rightarrow>
                     process_events rest True
                       (self\<lparr>progress := PyStr percent_done, etc := PyStr etc_done\<rparr>)))
         else if nodeName xmlnode = ''nmaprun'' \<and> attributes xmlnode \<noteq> [] then
           (case attr xmlnode ''start'' of
              Inl _ \<Rightarrow> (True, rval, self)
            | Inr start \<Rightarrow>
                (case attr xmlnode ''version'' of
                   Inl _ \<Rightarrow> (True, rval, self\<lparr>starttime := PyStr start\<rparr>)
                 | Inr version \<Rightarrow>
                     process_events rest True
                       (self\<lparr>starttime := PyStr start, nmap_version := Some version\<rparr>)))
         else if nodeName xmlnode = ''finished'' \<and> attributes xmlnode \<noteq> [] then
           (case attr xmlnode ''time'' of
              Inl _ \<Rightarrow> (True, rval, self)
            | Inr time \<Rightarrow>
                (case attr xmlnode ''elapsed'' of
                   Inl _ \<Rightarrow> (True, rval, self\<lparr>endtime := PyStr time\<rparr>)
                 | Inr elapsed_v \<Rightarrow>
                     (case attr xmlnode ''summary'' of
                        Inl _ \<Rightarrow>
                          (True, rval, self\<lparr>endtime := PyStr time, elapsed := elapsed_v\<rparr>)
                      | Inr summary_v \<Rightarrow>
                          process_events rest True
                            (self\<lparr>endtime := PyStr time, elapsed := elapsed_v,
                                  summary := summary_v\<rparr>))))
         else process_events rest rval self)
      else process_events rest rval self)"

text \<open>
  \<^verbatim>\<open>rval = False\<close>, the \<^verbatim>\<open>try\<close>, \<^verbatim>\<open>except: pass\<close> and \<^verbatim>\<open>return rval\<close>: whether the body
  raised is dropped.
\<close>

definition process_event :: "host \<Rightarrow> NmapProcess \<Rightarrow> string \<Rightarrow> bool \<times> NmapProcess" where
  "process_event h self eventdata =
     (case process_events (parseString h eventdata) False self of
        (raised, rval, self') \<Rightarrow> (rval, self'))"

subsection \<open>\<^verbatim>\<open>__wait\<close>\<close>

text \<open>
  The observer is code of the caller. The model records each of its invocations, with
  the object and the chunk it is passed, and takes it to return without changing the
  object.
\<close>

type_synonym calls = "(NmapProcess \<times> string) list"

text \<open>
  The \<^verbatim>\<open>else\<close> branch of the \<^verbatim>\<open>try\<close>: what the loop does with a chunk it has got.
\<close>

definition consume :: "host \<Rightarrow> string \<Rightarrow> NmapProcess \<times> calls \<Rightarrow> NmapProcess \<times> calls" where
  "consume h thread_stream st =
     (case st of (self, called) \<Rightarrow>
        (case process_event h self thread_stream of (e, self1) \<Rightarrow>
           (self1\<lparr>stdout := stdout self1 @ thread_stream\<rparr>,
            if nmap_event_callback self1 \<noteq> None \<and> e
            then called @ [(self1, thread_stream)] else called)))"

text \<open>
  The \<^verbatim>\<open>while\<close> loop, from its \<open>i\<close>-th iteration on. The child may run forever, so
  the loop takes fuel, one unit for each evaluation of its condition, and \<open>None\<close> is the
  loop that has not ended when the fuel is used up.
\<close>

fun wait_loop :: "nat \<Rightarrow> host \<Rightarrow> child \<Rightarrow> nat \<Rightarrow> NmapProcess \<times> calls \<Rightarrow> (NmapProcess \<times> calls) option" where
  "wait_loop 0 h c i st = None"
| "wait_loop (Suc fuel) h c i st =
     (if polls c i = None \<or> \<not> empties c i then
        (case gets c i of
           RaisedEmpty \<Rightarrow> wait_loop fuel h c (Suc i) st
         | RaisedKeyboardInterrupt \<Rightarrow> Some st
         | Got thread_stream \<Rightarrow> wait_loop fuel h c (Suc i) (consume h thread_stream st))
      else Some st)"

text \<open>The property \<^verbatim>\<open>rc\<close>.\<close>

definition rc :: "NmapProcess \<Rightarrow> int option" where
  "rc self = nmap_rc self"

text \<open>
  The statements after the loop. The result is the value returned or the exception
  raised, and the object as it is then.
\<close>

definition resolve :: "child \<Rightarrow> NmapProcess \<Rightarrow> (exn + int option) \<times> NmapProcess" where
  "resolve c self0 =
     (let self = self0\<lparr>nmap_rc := last_poll c\<rparr> in
      if rc self = None then
        (let self1 = self\<lparr>state := CANCELLED\<rparr> in (Inr (rc self1), self1))
      else if rc self = Some 0 then
        (let self1 = self\<lparr>state := DONE, progress := PyInt 100\<rparr> in (Inr (rc self1), self1))
      else
        (let self1 = self\<lparr>state := FAILED\<rparr> in
         case err_get c of
           None \<Rightarrow> (Inl Empty, self1)
         | Some line \<Rightarrow>
             (let self2 = self1\<lparr>stderr := line\<rparr> in (Inr (rc self2), self2))))"

type_synonym outcome = "(exn + int option) \<times> NmapProcess \<times> calls"

definition wait :: "nat \<Rightarrow> host \<Rightarrow> child \<Rightarrow> NmapProcess \<Rightarrow> outcome option" where
  "wait fuel h c self =
     (case wait_loop fuel h c 0 (self, []) of
        None \<Rightarrow> None
      | Some (self1, called) \<Rightarrow>
          (case resolve c self1 of (res, self2) \<Rightarrow> Some (res, self2, called)))"

subsection \<open>\<^verbatim>\<open>run\<close> and \<^verbatim>\<open>sudo_run\<close>\<close>

text \<open>
  Only \<^verbatim>\<open>OSError\<close> is caught (and raised again, with the state \<^verbatim>\<open>FAILED\<close>); the
  \<^verbatim>\<open>ValueError\<close> of \<^verbatim>\<open>shlex.split\<close> passes through the \<^verbatim>\<open>try\<close>.
\<close>

definition run :: "nat \<Rightarrow> host \<Rightarrow> child \<Rightarrow> NmapProcess \<Rightarrow> outcome option" where
  "run fuel h c self0 =
     (let self = run_init self0 in
      case shlex_split h (nmap_command_line self) of
        None \<Rightarrow> Some (Inl ValueError, self, [])
      | Some tmp_cmdline \<Rightarrow>
          if popen h tmp_cmdline
          then wait fuel h c (self\<lparr>nmap_proc := Some (Popen tmp_cmdline), state := RUNNING\<rparr>)
          else Some (Inl OSError, self\<lparr>state := FAILED\<rparr>, []))"

definition sudo_not_found :: exn where
  "sudo_not_found =
     EnvironmentError 2
       ''sudo is not installed or could not be found in system path: cannot run nmap with sudo''"

text \<open>
  \<^verbatim>\<open>run_as.split().pop()\<close> is the last word of \<open>run_as\<close>, or \<^verbatim>\<open>IndexError\<close>. The
  assignment \<^verbatim>\<open>self.__sudo_run = ""\<close> stands after the call of \<^verbatim>\<open>run\<close>, outside any
  \<^verbatim>\<open>try\<close>: it is reached when \<^verbatim>\<open>run\<close> returns.
\<close>

definition sudo_run :: "nat \<Rightarrow> host \<Rightarrow> child \<Rightarrow> string \<Rightarrow> NmapProcess \<Rightarrow> outcome option" where
  "sudo_run fuel h c run_as self =
     (case rev (str_split_ws run_as) of
        [] \<Rightarrow> Some (Inl IndexError, self, [])
      | sudo_user # _ \<Rightarrow>
          if \<not> getpwnam h sudo_user then Some (Inl (KeyError sudo_user), self, [])
          else
            (case whereis h ''sudo'' of
               None \<Rightarrow> Some (Inl sudo_not_found, self, [])
             | Some sudo_path \<Rightarrow>
                 (case run fuel h c
                         (self\<lparr>sudo_run_prefix := pyformat ''%s -u %s'' [sudo_path, sudo_user]\<rparr>) of
                    None \<Rightarrow> None
                  | Some (Inl e, self1, called) \<Rightarrow> Some (Inl e, self1, called)
                  | Some (Inr r, self1, called) \<Rightarrow>
                      Some (Inr r, self1\<lparr>sudo_run_prefix := ''''\<rparr>, called))))"

subsection \<open>The status queries\<close>

definition is_running :: "NmapProcess \<Rightarrow> bool" where
  "is_running self = (state self = RUNNING)"

definition has_terminated :: "NmapProcess \<Rightarrow> bool" where
  "has_terminated self = (state self = DONE \<or> state self = FAILED \<or> state self = CANCELLED)"

definition has_failed :: "NmapProcess \<Rightarrow> bool" where
  "has_failed self = (state self = FAILED)"

definition is_successful :: "NmapProcess \<Rightarrow> bool" where
  "is_successful self = (state self = DONE)"

subsection \<open>Observations on a run\<close>

text \<open>
  The start-element events an iterator delivers before it stops or raises, and whether
  it ends by raising.
\<close>

fun start_elements :: "domstream \<Rightarrow> xmlnode list" where
  "start_elements StopIteration = []"
| "start_elements SAXParseException = []"
| "start_elements (Next e xmlnode rest) =
     (if e = START_ELEMENT then xmlnode # start_elements rest else start_elements rest)"

fun raises :: "domstream \<Rightarrow> bool" where
  "raises StopIteration = False"
| "raises SAXParseException = True"
| "raises (Next e xmlnode rest) = raises rest"

text \<open>
  An element that one of the three branches of \<^verbatim>\<open>__process_event\<close> takes: one of the
  three names, with at least one attribute.
\<close>

definition marker :: "xmlnode \<Rightarrow> bool" where
  "marker xmlnode =
     ((nodeName xmlnode = ''taskprogress'' \<or> nodeName xmlnode = ''nmaprun''
         \<or> nodeName xmlnode = ''finished'')
      \<and> attributes xmlnode \<noteq> [])"

text \<open>
  The chunks the loop gets from the queue, from its \<open>i\<close>-th iteration on, in the
  order it gets them.
\<close>

fun consumed :: "nat \<Rightarrow> child \<Rightarrow> nat \<Rightarrow> string list" where
  "consumed 0 c i = []"
| "consumed (Suc fuel) c i =
     (if polls c i = None \<or> \<not> empties c i then
        (case gets c i of
           RaisedEmpty \<Rightarrow> consumed fuel c (Suc i)
         | RaisedKeyboardInterrupt \<Rightarrow> []
         | Got thread_stream \<Rightarrow> thread_stream # consumed fuel c (Suc i))
      else [])"

text \<open>
  The runner after the loop has consumed one chunk: \<^verbatim>\<open>__process_event\<close> has run on the
  chunk, and the chunk is appended to \<^verbatim>\<open>stdout\<close>.
\<close>

definition absorb :: "host \<Rightarrow> NmapProcess \<Rightarrow> string \<Rightarrow> NmapProcess" where
  "absorb h self chunk =
     (case process_event h self chunk of
        (e, self1) \<Rightarrow> self1\<lparr>stdout := stdout self1 @ chunk\<rparr>)"

text \<open>
  The runner at the moment the loop gets the \<open>k\<close>-th of the chunks \<open>cs\<close>: the
  runner the loop started with, after the \<open>k\<close> chunks before this one.
\<close>

definition runner_before :: "host \<Rightarrow> NmapProcess \<Rightarrow> string list \<Rightarrow> nat \<Rightarrow> NmapProcess" where
  "runner_before h self cs k = foldl (absorb h) self (take k cs)"

text \<open>
  The invocations of the observer that are due for a chunk the runner \<open>self\<close> gets:
  one, with the runner as \<^verbatim>\<open>__process_event\<close> leaves it and the chunk, when an observer
  is stored and \<^verbatim>\<open>__process_event\<close> returns true on the chunk, and none otherwise.
\<close>

definition observer_call :: "host \<Rightarrow> NmapProcess \<Rightarrow> string \<Rightarrow> calls" where
  "observer_call h self chunk =
     (case process_event h self chunk of
        (e, self1) \<Rightarrow>
          if nmap_event_callback self1 \<noteq> None \<and> e then [(self1, chunk)] else [])"

subsection \<open>A concrete host and concrete children\<close>

text \<open>
  Four lines as nmap writes them, and the events \<^verbatim>\<open>pulldom\<close> delivers for each:
  the opening tag of the document element, which is closed only at the end of the scan;
  a complete progress element; a progress element cut in the middle of its tag, on
  which the parser raises at once; the opening tag of the statistics with a host count,
  on which it raises after the two elements.
\<close>

definition dq :: string where
  "dq = [CHR 0x22]"

definition nmaprun_line :: string where
  "nmaprun_line = ''<nmaprun start='' @ dq @ ''1'' @ dq @ '' version='' @ dq @ ''2'' @ dq @ ''>''"

definition taskprogress_line :: string where
  "taskprogress_line =
     ''<taskprogress percent='' @ dq @ ''42'' @ dq @ '' etc='' @ dq @ ''9'' @ dq @ ''/>''"

definition cut_line :: string where
  "cut_line = ''<taskprogress percent='' @ dq @ ''42'' @ dq @ '' etc=''"

definition hosts_line :: string where
  "hosts_line = ''<runstats><hosts up='' @ dq @ ''1'' @ dq @ ''/>''"

definition document_node :: xmlnode where
  "document_node = \<lparr> nodeName = ''#document'', attributes = [] \<rparr>"

definition nmaprun_node :: xmlnode where
  "nmaprun_node =
     \<lparr> nodeName = ''nmaprun'', attributes = [(''start'', ''1''), (''version'', ''2'')] \<rparr>"

definition taskprogress_node :: xmlnode where
  "taskprogress_node =
     \<lparr> nodeName = ''taskprogress'', attributes = [(''percent'', ''42''), (''etc'', ''9'')] \<rparr>"

definition runstats_node :: xmlnode where
  "runstats_node = \<lparr> nodeName = ''runstats'', attributes = [] \<rparr>"

definition hosts_node :: xmlnode where
  "hosts_node = \<lparr> nodeName = ''hosts'', attributes = [(''up'', ''1'')] \<rparr>"

definition demo_parse :: "string \<Rightarrow> domstream" where
  "demo_parse s =
     (if s = nmaprun_line then
        Next START_DOCUMENT document_node (Next START_ELEMENT nmaprun_node SAXParseException)
      else if s = taskprogress_line then
        Next START_DOCUMENT document_node
          (Next START_ELEMENT taskprogress_node
             (Next END_ELEMENT taskprogress_node StopIteration))
      else if s = hosts_line then
        Next START_DOCUMENT document_node
          (Next START_ELEMENT runstats_node
             (Next START_ELEMENT hosts_node
                (Next END_ELEMENT hosts_node SAXParseException)))
      else SAXParseException)"

text \<open>
  A host with nmap and sudo in \<^verbatim>\<open>/usr/bin\<close> and the user root. Its command lines have
  no quotes, for which \<^verbatim>\<open>shlex.split\<close> is \<^verbatim>\<open>split\<close>.
\<close>

definition demo_host :: host where
  "demo_host =
     \<lparr> environ_PATH = Some ''/usr/bin:/bin'',
       path_exists = (\<lambda>p. p = ''/usr/bin/nmap'' \<or> p = ''/usr/bin/sudo''),
       path_isdir = (\<lambda>p. False),
       getpwnam = (\<lambda>u. u = ''root''),
       shlex_split = (\<lambda>s. Some (str_split_ws s)),
       popen = (\<lambda>args. True),
       parseString = demo_parse \<rparr>"

text \<open>
  The same host, where the file \<^verbatim>\<open>/usr/bin/sudo\<close> exists and cannot be executed:
  \<^verbatim>\<open>Popen\<close> raises \<^verbatim>\<open>OSError\<close> for a command line that starts with it.
\<close>

definition broken_sudo_host :: host where
  "broken_sudo_host =
     demo_host\<lparr>popen := (\<lambda>args. case args of [] \<Rightarrow> False
                                    | a # _ \<Rightarrow> a \<noteq> ''/usr/bin/sudo'')\<rparr>"

text \<open>
  A child that writes the three lines and exits: the loop gets a line in each of its
  first three iterations and finds the child gone and the queue empty in the fourth.
\<close>

definition demo_child :: "int \<Rightarrow> string option \<Rightarrow> child" where
  "demo_child status err =
     \<lparr> polls = (\<lambda>i. if i < 3 then None else Some status),
       empties = (\<lambda>i. 3 \<le> i),
       gets = (\<lambda>i. if i = 0 then Got nmaprun_line
                     else if i = 1 then Got cut_line
                     else if i = 2 then Got taskprogress_line
                     else RaisedEmpty),
       last_poll = Some status,
       err_get = err \<rparr>"

text \<open>
  A child that writes one line and then runs on without output, until the user
  interrupts the second \<^verbatim>\<open>get\<close>; \<^verbatim>\<open>poll\<close> finds it still running after the loop.
\<close>

definition interrupted_child :: child where
  "interrupted_child =
     \<lparr> polls = (\<lambda>i. None), empties = (\<lambda>i. True),
       gets = (\<lambda>i. if i = 0 then Got nmaprun_line else RaisedKeyboardInterrupt),
       last_poll = None, err_get = None \<rparr>"

text \<open>
  A child that exits with status 1 and writes nothing, neither to its output nor to its
  error stream.
\<close>

definition silent_child :: child where
  "silent_child =
     \<lparr> polls = (\<lambda>i. Some 1), empties = (\<lambda>i. True), gets = (\<lambda>i. RaisedEmpty),
       last_poll = Some 1, err_get = None \<rparr>"

text \<open>The object of \<^verbatim>\<open>NmapProcess("a, b", "-sT", f)\<close> on this host.\<close>

definition demo_process :: NmapProcess where
  "demo_process =
     \<lparr> nmap_proc = None, nmap_rc = Some 0, nmap_binary_name = ''nmap'',
       nmap_fixed_options = ''-oX - -vvv --stats-every 2s'',
       nmap_binary = ''/usr/bin/nmap'', sudo_run_prefix = '''',
       nmap_targets = [''a'', ''b''], nmap_dynamic_options = ''-sT'',
       nmap_command_line = '' /usr/bin/nmap -oX - -vvv --stats-every 2s -sT a b'',
       nmap_event_callback = Some ''f'', state = READY,
       starttime = PyInt 0, endtime = PyInt 0, progress = PyInt 0, etc = PyInt 0,
       elapsed = '''', summary = '''', stdout = '''', stderr = '''',
       nmap_version = None, io_queue = None, ioerr_queue = None \<rparr>"

text \<open>
  A child that writes the two lines without a marker and exits with status 0.
\<close>

definition unmarked_child :: child where
  "unmarked_child =
     \<lparr> polls = (\<lambda>i. if i < 2 then None else Some 0),
       empties = (\<lambda>i. 2 \<le> i),
       gets = (\<lambda>i. if i = 0 then Got cut_line
                     else if i = 1 then Got hosts_line
                     else RaisedEmpty),
       last_poll = Some 0,
       err_get = None \<rparr>"

text \<open>The same object as an earlier run could have left it.\<close>

definition used_process :: NmapProcess where
  "used_process =
     demo_process\<lparr> nmap_rc := Some 1, state := FAILED,
                   starttime := PyStr ''1700000000'', endtime := PyStr ''1700000009'',
                   progress := PyStr ''55'', etc := PyStr ''1700000020'',
                   elapsed := ''9.00'', summary := ''old summary'',
                   stdout := ''LEFTOVER'', stderr := ''old error'',
                   nmap_version := Some ''6.40'',
                   io_queue := Some (Queue [''left'']), ioerr_queue := Some (Queue []) \<rparr>"

section \<open>Properties\<close>

subsection \<open>The string operations\<close>

lemma split_where_nonempty: "split_where p s \<noteq> []"
  by (induction s) (auto split: list.splits)

lemma str_split_append:
  "c \<notin> set a \<Longrightarrow> str_split c (a @ c # rest) = a # str_split c rest"
  unfolding str_split_def
  by (induction a) (auto split: list.splits simp: split_where_nonempty)

lemma str_split_no_sep: "c \<notin> set a \<Longrightarrow> str_split c a = [a]"
  unfolding str_split_def
  by (induction a) (auto split: list.splits)

lemma str_split_join:
  "ts \<noteq> [] \<Longrightarrow> \<forall>t\<in>set ts. c \<notin> set t \<Longrightarrow> str_split c (str_join [c] ts) = ts"
proof (induction ts rule: induct_list012)
  case 1
  then show ?case by simp
next
  case (2 x)
  then show ?case by (simp add: str_split_no_sep)
next
  case (3 x y ys)
  then show ?case by (simp add: str_split_append)
qed

lemma get_command_line_eq:
  "get_command_line self =
     sudo_run_prefix self @ '' '' @ nmap_binary self @ '' '' @ nmap_fixed_options self @ '' ''
       @ nmap_dynamic_options self @ '' '' @ str_join '' '' (nmap_targets self)"
  by (simp add: get_command_line_def lstrip_def isspace_def)

lemma set_split_where_all: "\<forall>t\<in>set (split_where p s). set t \<subseteq> set s"
proof (induction s)
  case Nil
  then show ?case by simp
next
  case (Cons a s)
  show ?case
  proof (cases "p a")
    case True
    with Cons show ?thesis by auto
  next
    case False
    obtain w ws where eq: "split_where p s = w # ws"
      using split_where_nonempty [of p s] by (cases "split_where p s") auto
    with Cons have "set w \<subseteq> set s" "\<forall>t\<in>set ws. set t \<subseteq> set s" by auto
    with False eq show ?thesis by auto
  qed
qed

lemma set_split_where: "t \<in> set (split_where p s) \<Longrightarrow> set t \<subseteq> set s"
  using set_split_where_all by blast

lemma remove_spaces_split: "t \<in> set (str_split c (remove_spaces s)) \<Longrightarrow> CHR '' '' \<notin> set t"
  using set_split_where [of t "\<lambda>x. x = c" "remove_spaces s"]
  by (auto simp: str_split_def remove_spaces_def)

lemma str_split_nonempty: "str_split c s \<noteq> []"
  by (simp add: str_split_def split_where_nonempty)

subsection \<open>The event extractor and the loop\<close>

lemma process_events_callback:
  "nmap_event_callback (snd (snd (process_events s rv self))) = nmap_event_callback self"
  by (induction s rv self rule: process_events.induct) (simp_all split: sum.splits)

lemma process_events_stdout:
  "stdout (snd (snd (process_events s rv self))) = stdout self"
  by (induction s rv self rule: process_events.induct) (simp_all split: sum.splits)

lemma process_events_rval:
  "fst (snd (process_events s rv a)) = fst (snd (process_events s rv b))"
proof (induction s arbitrary: rv a b)
  case (Next e xmlnode rest)
  show ?case
    by (simp split: sum.splits) (use Next in blast)
qed simp_all

lemma process_events_no_marker:
  "\<forall>n\<in>set (start_elements s). \<not> marker n \<Longrightarrow> process_events s rv self = (raises s, rv, self)"
  by (induction s arbitrary: rv self) (auto simp: marker_def)

lemma wait_loop_exits:
  "(polls c (i + k) \<noteq> None \<and> empties c (i + k)) \<or> gets c (i + k) = RaisedKeyboardInterrupt
   \<Longrightarrow> k < fuel \<Longrightarrow> \<exists>st'. wait_loop fuel h c i st = Some st'"
proof (induction k arbitrary: fuel i st)
  case 0
  then obtain f where "fuel = Suc f" by (cases fuel) auto
  with 0 show ?case by (auto split: get_result.splits)
next
  case (Suc k)
  then obtain f where f: "fuel = Suc f" "k < f" by (cases fuel) auto
  from Suc.prems(1) have "(polls c (Suc i + k) \<noteq> None \<and> empties c (Suc i + k))
      \<or> gets c (Suc i + k) = RaisedKeyboardInterrupt" by simp
  from Suc.IH [OF this f(2)] have "\<And>st. \<exists>st'. wait_loop f h c (Suc i) st = Some st'" .
  with f show ?case by (auto split: get_result.splits)
qed

lemma consume_callback:
  "nmap_event_callback (fst (consume h chunk st)) = nmap_event_callback (fst st)"
  by (cases st) (simp add: consume_def process_event_def split_beta process_events_callback)

lemma consume_calls:
  "map snd (snd (consume h chunk (self, called))) =
     map snd called @
       (if nmap_event_callback self \<noteq> None \<and> fst (process_event h self0 chunk)
        then [chunk] else [])"
proof -
  obtain raised rval self1 where pe: "process_events (parseString h chunk) False self = (raised, rval, self1)"
    by (cases "process_events (parseString h chunk) False self") auto
  have cb: "nmap_event_callback self1 = nmap_event_callback self"
    using process_events_callback [of "parseString h chunk" False self] pe by simp
  have rv: "fst (process_event h self0 chunk) = rval"
    using process_events_rval [of "parseString h chunk" False self0 self] pe
    by (simp add: process_event_def split_beta)
  show ?thesis
    using pe cb rv by (simp add: consume_def process_event_def)
qed

lemma wait_loop_calls:
  "wait_loop fuel h c i (self, called) = Some (self', called') \<Longrightarrow>
   nmap_event_callback self' = nmap_event_callback self \<and>
   map snd called' =
     map snd called @
       (if nmap_event_callback self = None then []
        else filter (\<lambda>chunk. fst (process_event h self0 chunk)) (consumed fuel c i))"
proof (induction fuel arbitrary: i self called)
  case 0
  then show ?case by simp
next
  case (Suc fuel)
  show ?case
  proof (cases "polls c i = None \<or> \<not> empties c i")
    case False
    with Suc.prems show ?thesis by auto
  next
    case True
    show ?thesis
    proof (cases "gets c i")
      case RaisedEmpty
      with True Suc.prems have "wait_loop fuel h c (Suc i) (self, called) = Some (self', called')"
        by simp
      from Suc.IH [OF this] RaisedEmpty True show ?thesis by simp
    next
      case RaisedKeyboardInterrupt
      with True Suc.prems show ?thesis by auto
    next
      case (Got chunk)
      obtain self1 called1 where c1: "consume h chunk (self, called) = (self1, called1)"
        by (cases "consume h chunk (self, called)") auto
      have cb: "nmap_event_callback self1 = nmap_event_callback self"
        using consume_callback [of h chunk "(self, called)"] c1 by simp
      have cl: "map snd called1 = map snd called @
          (if nmap_event_callback self \<noteq> None \<and> fst (process_event h self0 chunk)
           then [chunk] else [])"
        using consume_calls [of h chunk self called self0] c1 by simp
      from Got True Suc.prems c1
      have "wait_loop fuel h c (Suc i) (self1, called1) = Some (self', called')" by simp
      from Suc.IH [OF this] cb cl Got True show ?thesis by simp
    qed
  qed
qed

subsection \<open>The concrete host at work\<close>

lemma lines_distinct:
  "nmaprun_line \<noteq> cut_line" "nmaprun_line \<noteq> taskprogress_line" "cut_line \<noteq> taskprogress_line"
  "cut_line \<noteq> nmaprun_line" "cut_line \<noteq> hosts_line" "taskprogress_line \<noteq> nmaprun_line"
  "hosts_line \<noteq> nmaprun_line" "hosts_line \<noteq> taskprogress_line"
  by (simp_all add: nmaprun_line_def cut_line_def taskprogress_line_def hosts_line_def dq_def)

lemma consumed_demo: "consumed 4 (demo_child 0 None) 0 = [nmaprun_line, cut_line, taskprogress_line]"
  by (simp add: eval_nat_numeral demo_child_def)

lemma whereis_demo:
  "whereis demo_host ''nmap'' = Some ''/usr/bin/nmap''"
  "whereis demo_host ''sudo'' = Some ''/usr/bin/sudo''"
  "whereis broken_sudo_host ''sudo'' = Some ''/usr/bin/sudo''"
  by (simp_all add: whereis_def demo_host_def broken_sudo_host_def str_split_def os_path_join_def)

lemma str_split_ws_plain:
  "str_split_ws '' /usr/bin/nmap -oX - -vvv --stats-every 2s -sT a b''
     = [''/usr/bin/nmap'', ''-oX'', ''-'', ''-vvv'', ''--stats-every'', ''2s'', ''-sT'', ''a'', ''b'']"
  by (simp add: str_split_ws_def isspace_def)

lemma str_split_ws_sudo:
  "str_split_ws ''/usr/bin/sudo -u root /usr/bin/nmap -oX - -vvv --stats-every 2s -sT a b''
     = [''/usr/bin/sudo'', ''-u'', ''root'', ''/usr/bin/nmap'', ''-oX'', ''-'', ''-vvv'',
        ''--stats-every'', ''2s'', ''-sT'', ''a'', ''b'']"
  by (simp add: str_split_ws_def isspace_def)

lemma str_split_ws_root: "str_split_ws ''root'' = [''root'']"
  by (simp add: str_split_ws_def isspace_def)

lemma str_split_ws_unsafe:
  "str_split_ws ''-sT -oN out.txt'' = [''-sT'', ''-oN'', ''out.txt'']"
  by (simp add: str_split_ws_def isspace_def)

lemma command_line_demo:
  "get_command_line demo_process = '' /usr/bin/nmap -oX - -vvv --stats-every 2s -sT a b''"
  "get_command_line (demo_process\<lparr>sudo_run_prefix := ''/usr/bin/sudo -u root''\<rparr>)
     = ''/usr/bin/sudo -u root /usr/bin/nmap -oX - -vvv --stats-every 2s -sT a b''"
  by (simp_all add: get_command_line_eq demo_process_def)

lemma init_demo:
  "init demo_host (TStr ''a, b'') ''-sT'' (PyCallable ''f'' True) True = Inr demo_process"
  "init demo_host (TList [''a'', ''b'']) ''-sT'' (PyCallable ''f'' True) True = Inr demo_process"
  by (simp_all add: init_def whereis_demo init_targets_def remove_spaces_def str_split_def
      str_split_ws_def isspace_def unsafe_opts_def init_callback_def get_command_line_def
      lstrip_def demo_process_def)

lemma exn_distinct:
  "unsafe_options \<noteq> nmap_not_found" "unsafe_options \<noteq> bad_targets"
  "bad_targets \<noteq> nmap_not_found"
  by (simp_all add: unsafe_options_def nmap_not_found_def bad_targets_def)

subsection \<open>Runs\<close>

lemma run_no_callback:
  assumes "nmap_event_callback self = None"
    and "run fuel h c self = Some (res, self', called)"
  shows "called = []"
proof (cases "shlex_split h (nmap_command_line (run_init self))")
  case None
  with assms(2) show ?thesis by (simp add: run_def)
next
  case (Some cmd)
  show ?thesis
  proof (cases "popen h cmd")
    case False
    with Some assms(2) show ?thesis by (simp add: run_def)
  next
    case True
    let ?s = "run_init self\<lparr>nmap_proc := Some (Popen cmd), state := RUNNING\<rparr>"
    from True Some assms(2) have w: "wait fuel h c ?s = Some (res, self', called)"
      by (simp add: run_def)
    then obtain self1 where lp: "wait_loop fuel h c 0 (?s, []) = Some (self1, called)"
      by (auto simp: wait_def split: option.splits prod.splits)
    have "nmap_event_callback ?s = None" using assms(1) by (simp add: run_init_def)
    with wait_loop_calls [OF lp, of ?s] show ?thesis by simp
  qed
qed

lemma run_returns:
  assumes "shlex_split h (get_command_line self) = Some cmd" and "popen h cmd"
    and "(polls c n \<noteq> None \<and> empties c n) \<or> gets c n = RaisedKeyboardInterrupt"
    and "n < fuel"
  shows "\<exists>res self' called. run fuel h c self = Some (res, self', called)"
proof -
  let ?s = "run_init self\<lparr>nmap_proc := Some (Popen cmd), state := RUNNING\<rparr>"
  have r: "run fuel h c self = wait fuel h c ?s"
    using assms(1,2) by (simp add: run_def run_init_def)
  from wait_loop_exits [of c 0 n fuel h "(?s, [])"] assms(3,4)
  obtain st where "wait_loop fuel h c 0 (?s, []) = Some st" by auto
  then have "\<exists>res self' called. wait fuel h c ?s = Some (res, self', called)"
    by (cases st) (simp add: wait_def split_beta)
  with r show ?thesis by simp
qed

lemma consume_absorb:
  "consume h chunk (self, called) = (absorb h self chunk, called @ observer_call h self chunk)"
  by (simp add: consume_def absorb_def observer_call_def split_beta)

lemma concat_map_upt_Suc:
  "concat (map f [0..<Suc n]) = f 0 @ concat (map (\<lambda>k. f (Suc k)) [0..<n])"
proof -
  have "[0..<Suc n] = 0 # map Suc [0..<n]"
    by (simp add: upt_conv_Cons map_Suc_upt del: upt_Suc)
  then show ?thesis by (simp add: comp_def del: upt_Suc)
qed

lemma wait_loop_trace:
  "wait_loop fuel h c i (self, called) = Some (self', called') \<Longrightarrow>
   self' = foldl (absorb h) self (consumed fuel c i) \<and>
   called' = called @
     concat (map (\<lambda>k. observer_call h (runner_before h self (consumed fuel c i) k)
                         (consumed fuel c i ! k))
               [0..<length (consumed fuel c i)])"
proof (induction fuel arbitrary: i self called)
  case 0
  then show ?case by simp
next
  case (Suc fuel)
  show ?case
  proof (cases "polls c i = None \<or> \<not> empties c i")
    case False
    with Suc.prems show ?thesis by auto
  next
    case True
    show ?thesis
    proof (cases "gets c i")
      case RaisedEmpty
      with True Suc.prems have "wait_loop fuel h c (Suc i) (self, called) = Some (self', called')"
        by simp
      from Suc.IH [OF this] RaisedEmpty True show ?thesis by simp
    next
      case RaisedKeyboardInterrupt
      with True Suc.prems show ?thesis by auto
    next
      case (Got chunk)
      from Got True Suc.prems
      have "wait_loop fuel h c (Suc i)
              (absorb h self chunk, called @ observer_call h self chunk) = Some (self', called')"
        by (simp add: consume_absorb)
      from Suc.IH [OF this] Got True show ?thesis
        by (simp add: concat_map_upt_Suc runner_before_def del: upt_Suc)
    qed
  qed
qed

lemma absorb_stdout: "stdout (absorb h self chunk) = stdout self @ chunk"
  using process_events_stdout [of "parseString h chunk" False self]
  by (simp add: absorb_def process_event_def split_beta)

lemma foldl_absorb_stdout: "stdout (foldl (absorb h) self cs) = stdout self @ concat cs"
  by (induction cs arbitrary: self) (simp_all add: absorb_stdout)

lemma resolve_stdout: "stdout (snd (resolve c self)) = stdout self"
  by (simp add: resolve_def Let_def rc_def split: option.splits)

lemma wait_stdout:
  assumes "wait fuel h c self = Some (res, self', called)"
  shows "stdout self' = stdout self @ concat (consumed fuel c 0)"
proof -
  from assms obtain self1 where lp: "wait_loop fuel h c 0 (self, []) = Some (self1, called)"
    and rs: "self' = snd (resolve c self1)"
    by (auto simp: wait_def split: option.splits prod.splits)
  from wait_loop_trace [OF lp] rs show ?thesis
    by (simp add: resolve_stdout foldl_absorb_stdout)
qed

lemma process_event_demo:
  "process_event demo_host r nmaprun_line
     = (True, r\<lparr>starttime := PyStr ''1'', nmap_version := Some ''2''\<rparr>)"
  "process_event demo_host r cut_line = (False, r)"
  "process_event demo_host r taskprogress_line
     = (True, r\<lparr>progress := PyStr ''42'', etc := PyStr ''9''\<rparr>)"
  by (simp_all add: process_event_def demo_host_def demo_parse_def lines_distinct
      nmaprun_node_def taskprogress_node_def attr_def)

lemma absorb_no_marker:
  "\<forall>n\<in>set (start_elements (parseString h x)). \<not> marker n \<Longrightarrow>
   absorb h self x = self\<lparr>stdout := stdout self @ x\<rparr>
   \<and> observer_call h self x = []"
  using process_events_no_marker [of "parseString h x" False self]
  by (simp add: absorb_def observer_call_def process_event_def)

lemma foldl_absorb_no_marker:
  "\<forall>x\<in>set cs. \<forall>n\<in>set (start_elements (parseString h x)). \<not> marker n \<Longrightarrow>
   foldl (absorb h) self cs = self\<lparr>stdout := stdout self @ concat cs\<rparr>"
  by (induction cs arbitrary: self) (simp_all add: absorb_no_marker)

lemma resolve_snapshot:
  "starttime (snd (resolve c self)) = starttime self
   \<and> endtime (snd (resolve c self)) = endtime self
   \<and> etc (snd (resolve c self)) = etc self
   \<and> elapsed (snd (resolve c self)) = elapsed self
   \<and> summary (snd (resolve c self)) = summary self
   \<and> nmap_version (snd (resolve c self)) = nmap_version self"
  by (simp add: resolve_def Let_def rc_def split: option.splits)

lemma wait_no_marker:
  assumes "wait fuel h c self = Some (res, self', called)"
    and "\<forall>x\<in>set (consumed fuel c 0). \<forall>n\<in>set (start_elements (parseString h x)). \<not> marker n"
  shows "starttime self' = starttime self \<and> endtime self' = endtime self
     \<and> etc self' = etc self \<and> elapsed self' = elapsed self
     \<and> summary self' = summary self \<and> nmap_version self' = nmap_version self"
proof -
  from assms(1) obtain self1 where lp: "wait_loop fuel h c 0 (self, []) = Some (self1, called)"
    and rs: "self' = snd (resolve c self1)"
    by (auto simp: wait_def split: option.splits prod.splits)
  from wait_loop_trace [OF lp] foldl_absorb_no_marker [OF assms(2), of self]
  have "self1 = self\<lparr>stdout := stdout self @ concat (consumed fuel c 0)\<rparr>" by simp
  with rs resolve_snapshot [of c self1] show ?thesis by simp
qed

lemma command_line_used:
  "get_command_line used_process = '' /usr/bin/nmap -oX - -vvv --stats-every 2s -sT a b''"
  "get_command_line (used_process\<lparr>sudo_run_prefix := ''/usr/bin/sudo -u root''\<rparr>)
     = ''/usr/bin/sudo -u root /usr/bin/nmap -oX - -vvv --stats-every 2s -sT a b''"
  by (simp_all add: get_command_line_eq demo_process_def used_process_def)

lemma consumed_unmarked: "consumed 3 unmarked_child 0 = [cut_line, hosts_line]"
  by (simp add: eval_nat_numeral unmarked_child_def)

lemma no_marker_demo:
  "\<forall>n\<in>set (start_elements (parseString demo_host cut_line)). \<not> marker n"
  "\<forall>n\<in>set (start_elements (parseString demo_host hosts_line)). \<not> marker n"
  by (simp_all add: demo_host_def demo_parse_def lines_distinct marker_def
      runstats_node_def hosts_node_def)

section \<open>The claims\<close>

text \<open>
  C1. When the loop of \<^verbatim>\<open>__wait\<close> ends, at an iteration \<open>n\<close> where the child has
  exited and the queue is empty or where the \<^verbatim>\<open>get\<close> is interrupted, \<^verbatim>\<open>__wait\<close>
  comes to an end and the state is decided by the exit status that \<^verbatim>\<open>poll\<close> returns
  after the loop: \<^verbatim>\<open>CANCELLED\<close> when there is none, \<^verbatim>\<open>DONE\<close> with the progress set
  to 100 when it is 0, whatever the output held, and \<^verbatim>\<open>FAILED\<close> for any other status.
\<close>

theorem wait_classifies_exit_status:
  assumes "(polls c n \<noteq> None \<and> empties c n) \<or> gets c n = RaisedKeyboardInterrupt"
    and "n < fuel"
  shows "\<exists>res self' called. wait fuel h c self = Some (res, self', called)
      \<and> (last_poll c = None \<longrightarrow> state self' = CANCELLED)
      \<and> (last_poll c = Some 0 \<longrightarrow> state self' = DONE \<and> progress self' = PyInt 100)
      \<and> (last_poll c \<noteq> None \<and> last_poll c \<noteq> Some 0 \<longrightarrow> state self' = FAILED)"
proof -
  from assms wait_loop_exits [of c 0 n fuel h "(self, [])"]
  obtain self1 called where lp: "wait_loop fuel h c 0 (self, []) = Some (self1, called)"
    by auto
  obtain res self2 where rs: "resolve c self1 = (res, self2)"
    by (cases "resolve c self1") auto
  have w: "wait fuel h c self = Some (res, self2, called)"
    using lp rs by (simp add: wait_def)
  have "(last_poll c = None \<longrightarrow> state self2 = CANCELLED)
      \<and> (last_poll c = Some 0 \<longrightarrow> state self2 = DONE \<and> progress self2 = PyInt 100)
      \<and> (last_poll c \<noteq> None \<and> last_poll c \<noteq> Some 0 \<longrightarrow> state self2 = FAILED)"
    using rs by (auto simp: resolve_def rc_def Let_def split: option.splits if_splits)
  with w show ?thesis
    by (intro exI [of _ res] exI [of _ self2] exI [of _ called]) simp
qed

text \<open>
  The three cases at work: a run that the user interrupts while the child is alive, a
  child that exits with status 0 after three lines, and one that exits with status 2.
\<close>

theorem wait_classifies_exit_status_witness:
  "gets interrupted_child 1 = RaisedKeyboardInterrupt
   \<and> map_option (state \<circ> fst \<circ> snd) (wait 2 demo_host interrupted_child demo_process)
     = Some CANCELLED
   \<and> polls (demo_child 0 None) 3 = Some 0 \<and> empties (demo_child 0 None) 3
   \<and> map_option (state \<circ> fst \<circ> snd) (wait 4 demo_host (demo_child 0 None) demo_process)
     = Some DONE
   \<and> map_option (progress \<circ> fst \<circ> snd) (wait 4 demo_host (demo_child 0 None) demo_process)
     = Some (PyInt 100)
   \<and> map_option (state \<circ> fst \<circ> snd)
       (wait 4 demo_host (demo_child 2 (Some ''QUITTING!'')) demo_process)
     = Some FAILED"
proof -
  have "map_option (state \<circ> fst \<circ> snd) (wait 2 demo_host interrupted_child demo_process)
     = Some CANCELLED"
    using wait_classifies_exit_status [of interrupted_child 1 2 demo_host demo_process]
    by (auto simp: interrupted_child_def)
  moreover have "map_option (state \<circ> fst \<circ> snd)
       (wait 4 demo_host (demo_child 0 None) demo_process) = Some DONE
     \<and> map_option (progress \<circ> fst \<circ> snd)
       (wait 4 demo_host (demo_child 0 None) demo_process) = Some (PyInt 100)"
    using wait_classifies_exit_status [of "demo_child 0 None" 3 4 demo_host demo_process]
    by (auto simp: demo_child_def)
  moreover have "map_option (state \<circ> fst \<circ> snd)
       (wait 4 demo_host (demo_child 2 (Some ''QUITTING!'')) demo_process) = Some FAILED"
    using wait_classifies_exit_status
      [of "demo_child 2 (Some ''QUITTING!'')" 3 4 demo_host demo_process]
    by (auto simp: demo_child_def)
  moreover have "gets interrupted_child 1 = RaisedKeyboardInterrupt"
    by (simp add: interrupted_child_def)
  moreover have "polls (demo_child 0 None) 3 = Some 0 \<and> empties (demo_child 0 None) 3"
    by (simp add: demo_child_def)
  ultimately show ?thesis by simp
qed

text \<open>
  C2. On a chunk that cannot be parsed as a fragment, that is, on which the parser
  raises before it has delivered the start of any element, \<^verbatim>\<open>__process_event\<close> returns
  false and leaves the whole object, and so every field of the snapshot, as it was. The
  body of the \<^verbatim>\<open>try\<close> ends by the exception (the first component of
  \<open>process_events\<close>), which the \<^verbatim>\<open>except\<close> swallows: the result of
  \<^verbatim>\<open>__process_event\<close> is a plain value.
\<close>

theorem process_event_on_parse_failure:
  assumes "raises (parseString h eventdata)"
    and "start_elements (parseString h eventdata) = []"
  shows "process_event h self eventdata = (False, self)
     \<and> process_events (parseString h eventdata) False self = (True, False, self)"
  using process_events_no_marker [of "parseString h eventdata" False self] assms
  by (simp add: process_event_def)

text \<open>
  The progress element cut in the middle of its tag, on which the parser raises at once.
\<close>

theorem process_event_on_parse_failure_witness:
  "raises (parseString demo_host cut_line)
   \<and> start_elements (parseString demo_host cut_line) = []
   \<and> process_event demo_host demo_process cut_line = (False, demo_process)
   \<and> process_events (parseString demo_host cut_line) False demo_process
       = (True, False, demo_process)"
proof -
  have q: "parseString demo_host cut_line = SAXParseException"
    by (simp add: demo_host_def demo_parse_def lines_distinct)
  from process_event_on_parse_failure [of demo_host cut_line demo_process] q
  show ?thesis by simp
qed

text \<open>
  C3 asks that \<^verbatim>\<open>run\<close> returns the exit status when the child fails and nothing arrives
  on its error stream. For a child that exits with status 1 and writes nothing,
  \<^verbatim>\<open>self.__ioerr_queue.get(timeout=2)\<close> raises \<^verbatim>\<open>Empty\<close>, which nothing catches:
  \<^verbatim>\<open>run\<close> ends by this exception, with the state \<^verbatim>\<open>FAILED\<close> and an empty \<^verbatim>\<open>stderr\<close>.
\<close>

theorem run_raises_on_silent_failure:
  "map_option fst (run 1 demo_host silent_child demo_process) = Some (Inl Empty)
   \<and> map_option (state \<circ> fst \<circ> snd) (run 1 demo_host silent_child demo_process) = Some FAILED
   \<and> map_option (stderr \<circ> fst \<circ> snd) (run 1 demo_host silent_child demo_process) = Some ''''"
  by (simp add: run_def run_init_def command_line_demo demo_host_def str_split_ws_plain
      wait_def silent_child_def resolve_def rc_def)

text \<open>
  C4. Every call of \<^verbatim>\<open>run\<close> starts by resetting the state of the invocation.
  \<^verbatim>\<open>_run_init\<close> sets the state to \<^verbatim>\<open>READY\<close>, the progress, the estimated time of
  completion and the two timestamps to 0, the elapsed time, the summary, the nmap
  version and the two output buffers to the empty string, and creates two new empty
  queues. \<^verbatim>\<open>run\<close> spawns from the object so reset: when the command line cannot be
  split, \<^verbatim>\<open>run\<close> ends with exactly this object; when the child cannot be started,
  with this object in the state \<^verbatim>\<open>FAILED\<close>; otherwise the loop is entered with this
  object, the child handle and the state \<^verbatim>\<open>RUNNING\<close>. So at the end of a run
  \<^verbatim>\<open>stdout\<close> holds the chunks of this run and nothing else, and when none of them
  delivers a marker the timestamps, the estimated time, the elapsed time, the summary
  and the version are the defaults. The result of \<^verbatim>\<open>run\<close> does not depend on what
  the attributes of the invocation held before the call: nothing of an earlier run is
  seen in the new one.
\<close>

theorem run_starts_from_defaults:
  "state (run_init self) = READY
   \<and> progress (run_init self) = PyInt 0 \<and> etc (run_init self) = PyInt 0
   \<and> starttime (run_init self) = PyInt 0 \<and> endtime (run_init self) = PyInt 0
   \<and> elapsed (run_init self) = '''' \<and> summary (run_init self) = ''''
   \<and> nmap_version (run_init self) = Some ''''
   \<and> stdout (run_init self) = '''' \<and> stderr (run_init self) = ''''
   \<and> io_queue (run_init self) = Some (Queue []) \<and> ioerr_queue (run_init self) = Some (Queue [])
   \<and> (shlex_split h (get_command_line self) = None \<longrightarrow>
        run fuel h c self = Some (Inl ValueError, run_init self, []))
   \<and> (shlex_split h (get_command_line self) = Some cmd \<and> \<not> popen h cmd \<longrightarrow>
        run fuel h c self = Some (Inl OSError, run_init self\<lparr>state := FAILED\<rparr>, []))
   \<and> (shlex_split h (get_command_line self) = Some cmd \<and> popen h cmd \<longrightarrow>
        run fuel h c self
          = wait fuel h c (run_init self\<lparr>nmap_proc := Some (Popen cmd), state := RUNNING\<rparr>)
        \<and> (run fuel h c self = Some (res, self', called) \<longrightarrow>
             stdout self' = concat (consumed fuel c 0)
             \<and> ((\<forall>x\<in>set (consumed fuel c 0).
                    \<forall>n\<in>set (start_elements (parseString h x)). \<not> marker n) \<longrightarrow>
                  starttime self' = PyInt 0 \<and> endtime self' = PyInt 0
                  \<and> etc self' = PyInt 0 \<and> elapsed self' = '''' \<and> summary self' = ''''
                  \<and> nmap_version self' = Some '''')))
   \<and> run fuel h c self = run fuel h c (run_init self)
   \<and> run fuel h c
         (self\<lparr>state := s, progress := p, etc := e, starttime := t0, endtime := t1,
               elapsed := el, summary := su, nmap_version := v, stdout := out,
               stderr := err, io_queue := q0, ioerr_queue := q1, nmap_rc := r,
               nmap_proc := pr, nmap_command_line := cl\<rparr>)
       = run fuel h c self"
proof -
  let ?s = "run_init self\<lparr>nmap_proc := Some (Popen cmd), state := RUNNING\<rparr>"
  have w: "wait fuel h c ?s = Some (res, self', called) \<longrightarrow>
             stdout self' = concat (consumed fuel c 0)"
    using wait_stdout [of fuel h c ?s res self' called] by (simp add: run_init_def)
  have k: "wait fuel h c ?s = Some (res, self', called) \<longrightarrow>
      (\<forall>x\<in>set (consumed fuel c 0).
          \<forall>n\<in>set (start_elements (parseString h x)). \<not> marker n) \<longrightarrow>
      starttime self' = PyInt 0 \<and> endtime self' = PyInt 0
      \<and> etc self' = PyInt 0 \<and> elapsed self' = '''' \<and> summary self' = ''''
      \<and> nmap_version self' = Some ''''"
    using wait_no_marker [of fuel h c ?s res self' called] by (simp add: run_init_def)
  have r: "shlex_split h (get_command_line self) = Some cmd \<and> popen h cmd \<longrightarrow>
        run fuel h c self = wait fuel h c ?s"
    by (simp add: run_def run_init_def)
  show ?thesis
    using w k r by (simp add: run_def run_init_def get_command_line_def)
qed

text \<open>
  An object that an earlier run has left with output, timestamps and an error: a run
  whose command line cannot be split, one whose child cannot be started, one of three
  lines and one of two lines without a marker.
\<close>

theorem run_starts_from_defaults_witness:
  "stdout used_process = ''LEFTOVER'' \<and> starttime used_process = PyStr ''1700000000''
   \<and> run 1 (demo_host\<lparr>shlex_split := (\<lambda>s. None)\<rparr>) silent_child used_process
       = Some (Inl ValueError, run_init used_process, [])
   \<and> run 1 broken_sudo_host silent_child
         (used_process\<lparr>sudo_run_prefix := ''/usr/bin/sudo -u root''\<rparr>)
       = Some (Inl OSError,
               run_init (used_process\<lparr>sudo_run_prefix := ''/usr/bin/sudo -u root''\<rparr>)
                 \<lparr>state := FAILED\<rparr>, [])
   \<and> map_option (stdout \<circ> fst \<circ> snd) (run 4 demo_host (demo_child 0 None) used_process)
       = Some (nmaprun_line @ cut_line @ taskprogress_line)
   \<and> map_option (stdout \<circ> fst \<circ> snd) (run 3 demo_host unmarked_child used_process)
       = Some (cut_line @ hosts_line)
   \<and> map_option (starttime \<circ> fst \<circ> snd) (run 3 demo_host unmarked_child used_process)
       = Some (PyInt 0)
   \<and> map_option (summary \<circ> fst \<circ> snd) (run 3 demo_host unmarked_child used_process)
       = Some ''''
   \<and> map_option (nmap_version \<circ> fst \<circ> snd) (run 3 demo_host unmarked_child used_process)
       = Some (Some '''')"
proof -
  let ?cmd = "str_split_ws '' /usr/bin/nmap -oX - -vvv --stats-every 2s -sT a b''"
  let ?sudo = "str_split_ws
     ''/usr/bin/sudo -u root /usr/bin/nmap -oX - -vvv --stats-every 2s -sT a b''"
  have u: "stdout used_process = ''LEFTOVER'' \<and> starttime used_process = PyStr ''1700000000''"
    by (simp add: used_process_def)
  have v: "run 1 (demo_host\<lparr>shlex_split := (\<lambda>s. None)\<rparr>) silent_child used_process
       = Some (Inl ValueError, run_init used_process, [])"
    using run_starts_from_defaults
      [where self = used_process and h = "demo_host\<lparr>shlex_split := (\<lambda>s. None)\<rparr>"
         and fuel = 1 and c = silent_child]
    by simp
  have o: "run 1 broken_sudo_host silent_child
         (used_process\<lparr>sudo_run_prefix := ''/usr/bin/sudo -u root''\<rparr>)
       = Some (Inl OSError,
               run_init (used_process\<lparr>sudo_run_prefix := ''/usr/bin/sudo -u root''\<rparr>)
                 \<lparr>state := FAILED\<rparr>, [])"
    using run_starts_from_defaults
      [where self = "used_process\<lparr>sudo_run_prefix := ''/usr/bin/sudo -u root''\<rparr>"
         and h = broken_sudo_host and cmd = ?sudo and fuel = 1 and c = silent_child]
    by (simp add: command_line_used broken_sudo_host_def demo_host_def str_split_ws_sudo)
  have sp: "shlex_split demo_host (get_command_line used_process) = Some ?cmd"
      "popen demo_host ?cmd"
    by (simp_all add: command_line_used demo_host_def)
  have "\<exists>res self' called. run 4 demo_host (demo_child 0 None) used_process
          = Some (res, self', called)"
    by (rule run_returns [where n = 3, OF sp]) (simp_all add: demo_child_def)
  then obtain res self' called where
    r: "run 4 demo_host (demo_child 0 None) used_process = Some (res, self', called)" by blast
  from run_starts_from_defaults
    [where self = used_process and h = demo_host and cmd = ?cmd and fuel = 4
       and c = "demo_child 0 None" and res = res and self' = self' and called = called] sp r
  have "stdout self' = nmaprun_line @ cut_line @ taskprogress_line"
    by (simp add: consumed_demo)
  with r have d: "map_option (stdout \<circ> fst \<circ> snd)
        (run 4 demo_host (demo_child 0 None) used_process)
       = Some (nmaprun_line @ cut_line @ taskprogress_line)"
    by simp
  have "\<exists>res self' called. run 3 demo_host unmarked_child used_process
          = Some (res, self', called)"
    by (rule run_returns [where n = 2, OF sp]) (simp_all add: unmarked_child_def)
  then obtain res2 self2 called2 where
    r2: "run 3 demo_host unmarked_child used_process = Some (res2, self2, called2)" by blast
  from run_starts_from_defaults
    [where self = used_process and h = demo_host and cmd = ?cmd and fuel = 3
       and c = unmarked_child and res = res2 and self' = self2 and called = called2] sp r2
  have q: "stdout self2 = cut_line @ hosts_line \<and> starttime self2 = PyInt 0
      \<and> summary self2 = '''' \<and> nmap_version self2 = Some ''''"
    by (simp add: consumed_unmarked no_marker_demo)
  from u v o d q r2 show ?thesis by simp
qed

text \<open>
  C5. After a successful construction the targets \<open>ts\<close> of the object are the pieces
  of the string between its commas (spaces removed), or the list as given, and the
  command line is the elevation prefix, the path of nmap, the fixed options, the
  options of the caller and the targets joined by single spaces, in this order and
  separated by single spaces; this is also the command line stored in the object.
  Cutting the joined targets at the spaces gives back the targets, each once and in
  their order: always for the string form, and for a list that is not empty and whose
  targets hold no space.
\<close>

theorem command_line_shape:
  assumes "init h targets options event_callback safe_mode = Inr self"
  shows "\<exists>ts. (case targets of
                 TStr s \<Rightarrow> ts = str_split CHR '','' (remove_spaces s)
               | TList l \<Rightarrow> ts = l
               | TOther \<Rightarrow> False)
      \<and> get_command_line (self\<lparr>sudo_run_prefix := prefix\<rparr>)
          = prefix @ '' '' @ nmap_binary self @ '' '' @ ''-oX - -vvv --stats-every 2s''
              @ '' '' @ options @ '' '' @ str_join '' '' ts
      \<and> get_command_line self = nmap_command_line self
      \<and> whereis h ''nmap'' = Some (nmap_binary self)
      \<and> ((\<exists>s. targets = TStr s) \<or> ts \<noteq> [] \<and> (\<forall>t\<in>set ts. CHR '' '' \<notin> set t)
           \<longrightarrow> str_split CHR '' '' (str_join '' '' ts) = ts)"
proof -
  from assms obtain binary ts where
    w: "whereis h ''nmap'' = Some binary" and t: "init_targets targets = Inr ts"
    by (auto simp: init_def split: option.splits sum.splits)
  from assms w t have f: "nmap_binary self = binary" "nmap_targets self = ts"
      "nmap_dynamic_options self = options"
      "nmap_fixed_options self = ''-oX - -vvv --stats-every 2s''"
      "nmap_command_line self = get_command_line self"
    by (auto simp: init_def Let_def get_command_line_def split: if_splits)
  have c: "(case targets of
                 TStr s \<Rightarrow> ts = str_split CHR '','' (remove_spaces s)
               | TList l \<Rightarrow> ts = l
               | TOther \<Rightarrow> False)"
    using t by (auto simp: init_targets_def split: targets_arg.splits)
  have r: "(\<exists>s. targets = TStr s) \<or> ts \<noteq> [] \<and> (\<forall>t\<in>set ts. CHR '' '' \<notin> set t)
           \<longrightarrow> str_split CHR '' '' (str_join '' '' ts) = ts"
  proof
    assume "(\<exists>s. targets = TStr s) \<or> ts \<noteq> [] \<and> (\<forall>t\<in>set ts. CHR '' '' \<notin> set t)"
    then have "ts \<noteq> [] \<and> (\<forall>t\<in>set ts. CHR '' '' \<notin> set t)"
    proof
      assume "\<exists>s. targets = TStr s"
      then obtain s where "targets = TStr s" by blast
      with c have "ts = str_split CHR '','' (remove_spaces s)" by simp
      then show ?thesis
        using str_split_nonempty [of "CHR '',''" "remove_spaces s"]
        by (auto dest: remove_spaces_split)
    qed simp
    then show "str_split CHR '' '' (str_join '' '' ts) = ts"
      using str_split_join [of ts "CHR '' ''"] by simp
  qed
  show ?thesis
    using w f c r by (intro exI [of _ ts]) (simp add: get_command_line_eq)
qed

text \<open>
  The command line of the object built from \<^verbatim>\<open>"a, b"\<close>, with and without elevation.
\<close>

theorem command_line_shape_witness:
  "init demo_host (TStr ''a, b'') ''-sT'' (PyCallable ''f'' True) True = Inr demo_process
   \<and> get_command_line (demo_process\<lparr>sudo_run_prefix := ''/usr/bin/sudo -u root''\<rparr>)
       = ''/usr/bin/sudo -u root /usr/bin/nmap -oX - -vvv --stats-every 2s -sT a b''
   \<and> get_command_line demo_process = '' /usr/bin/nmap -oX - -vvv --stats-every 2s -sT a b''
   \<and> str_split CHR '' '' (str_join '' '' [''a'', ''b'']) = [''a'', ''b'']"
proof -
  have s: "str_split CHR '','' (remove_spaces ''a, b'') = [''a'', ''b'']"
    by (simp add: str_split_def remove_spaces_def)
  from command_line_shape [OF init_demo(1), of "''/usr/bin/sudo -u root''"] s
  have "get_command_line (demo_process\<lparr>sudo_run_prefix := ''/usr/bin/sudo -u root''\<rparr>)
       = ''/usr/bin/sudo -u root /usr/bin/nmap -oX - -vvv --stats-every 2s -sT a b''
     \<and> str_split CHR '' '' (str_join '' '' [''a'', ''b'']) = [''a'', ''b'']"
    by (auto simp: demo_process_def)
  moreover from command_line_shape [OF init_demo(1), of "''''"] s
  have "get_command_line demo_process = '' /usr/bin/nmap -oX - -vvv --stats-every 2s -sT a b''"
    by (auto simp: demo_process_def)
  ultimately show ?thesis using init_demo(1) by simp
qed

text \<open>
  C6. When a word \<open>t\<close> of the option string is one of the unsafe options, the
  construction in safe mode fails, with the exception for unsafe options once nmap is
  found and the targets are a string or a list; with the safe mode off the same
  arguments then give an object, and never that exception.
\<close>

theorem unsafe_option_rejected_in_safe_mode:
  assumes "t \<in> set (str_split_ws options)" and "t \<in> unsafe_opts"
  shows "(\<exists>e. init h targets options event_callback True = Inl e)
     \<and> (whereis h ''nmap'' \<noteq> None \<and> targets \<noteq> TOther \<longrightarrow>
          init h targets options event_callback True = Inl unsafe_options
          \<and> (\<exists>self. init h targets options event_callback False = Inr self))
     \<and> init h targets options event_callback False \<noteq> Inl unsafe_options"
proof -
  from assms have u: "set (str_split_ws options) \<inter> unsafe_opts \<noteq> {}" by auto
  have a: "\<exists>e. init h targets options event_callback True = Inl e"
    using u by (auto simp: init_def split: option.splits sum.splits)
  have b: "whereis h ''nmap'' \<noteq> None \<and> targets \<noteq> TOther \<longrightarrow>
          init h targets options event_callback True = Inl unsafe_options
          \<and> (\<exists>self. init h targets options event_callback False = Inr self)"
    using u by (cases targets) (auto simp: init_def init_targets_def Let_def)
  have c: "init h targets options event_callback False \<noteq> Inl unsafe_options"
    using exn_distinct
    by (cases targets) (auto simp: init_def init_targets_def Let_def split: option.splits)
  from a b c show ?thesis by blast
qed

text \<open>
  The options \<^verbatim>\<open>-sT -oN out.txt\<close> on the concrete host.
\<close>

theorem unsafe_option_rejected_in_safe_mode_witness:
  "''-oN'' \<in> set (str_split_ws ''-sT -oN out.txt'') \<and> ''-oN'' \<in> unsafe_opts
   \<and> init demo_host (TStr ''a, b'') ''-sT -oN out.txt'' PyNone True = Inl unsafe_options
   \<and> isl (init demo_host (TStr ''a, b'') ''-sT -oN out.txt'' PyNone False) = False"
proof -
  have a: "''-oN'' \<in> set (str_split_ws ''-sT -oN out.txt'')"
    by (simp add: str_split_ws_unsafe)
  have b: "''-oN'' \<in> unsafe_opts" by (simp add: unsafe_opts_def)
  from unsafe_option_rejected_in_safe_mode [OF a b, of demo_host "TStr ''a, b''" PyNone]
  show ?thesis using a b by (auto simp: whereis_demo)
qed

text \<open>
  C7. When the loop ends, the chunks passed to the observer are, in order, exactly
  the chunks the loop consumed on which \<^verbatim>\<open>__process_event\<close> returned true, each
  passed once, and none when no observer is stored. (Whether \<^verbatim>\<open>__process_event\<close>
  returns true depends on the chunk alone, so it is tested on \<open>self\<close> here.) The
  invocations are exactly those due for the chunks consumed, one after the other: the
  object passed with the \<open>k\<close>-th chunk is the runner the loop started with, after the
  \<open>k\<close> chunks before and after \<^verbatim>\<open>__process_event\<close> on this one.
\<close>

theorem observer_calls:
  assumes "(polls c n \<noteq> None \<and> empties c n) \<or> gets c n = RaisedKeyboardInterrupt"
    and "n < fuel"
  shows "\<exists>res self' called. wait fuel h c self = Some (res, self', called)
      \<and> map snd called =
          (if nmap_event_callback self = None then []
           else filter (\<lambda>chunk. fst (process_event h self chunk)) (consumed fuel c 0))
      \<and> called =
          concat (map (\<lambda>k. observer_call h (runner_before h self (consumed fuel c 0) k)
                              (consumed fuel c 0 ! k))
                    [0..<length (consumed fuel c 0)])"
proof -
  from assms wait_loop_exits [of c 0 n fuel h "(self, [])"]
  obtain self1 called where lp: "wait_loop fuel h c 0 (self, []) = Some (self1, called)"
    by auto
  obtain res self2 where rs: "resolve c self1 = (res, self2)"
    by (cases "resolve c self1") auto
  have w: "wait fuel h c self = Some (res, self2, called)"
    using lp rs by (simp add: wait_def)
  have m: "map snd called =
          (if nmap_event_callback self = None then []
           else filter (\<lambda>chunk. fst (process_event h self chunk)) (consumed fuel c 0))"
    using wait_loop_calls [OF lp, of self] by simp
  have o: "called =
          concat (map (\<lambda>k. observer_call h (runner_before h self (consumed fuel c 0) k)
                              (consumed fuel c 0 ! k))
                    [0..<length (consumed fuel c 0)])"
    using wait_loop_trace [OF lp] by simp
  from w m o show ?thesis
    by (intro exI [of _ res] exI [of _ self2] exI [of _ called]) simp
qed

text \<open>
  A run of three lines, of which the first and the third hold a marker: the observer
  is called on these two, with the running object as it is then (the start time and
  the version of the first line; then also the two lines before in \<^verbatim>\<open>stdout\<close> and
  the progress of the third), and not at all when none is stored.
\<close>

theorem observer_calls_witness:
  "polls (demo_child 0 None) 3 = Some 0 \<and> empties (demo_child 0 None) 3
   \<and> consumed 4 (demo_child 0 None) 0 = [nmaprun_line, cut_line, taskprogress_line]
   \<and> map_option (snd \<circ> snd)
       (wait 4 demo_host (demo_child 0 None) (demo_process\<lparr>state := RUNNING\<rparr>))
     = Some [(demo_process\<lparr>state := RUNNING, starttime := PyStr ''1'',
                            nmap_version := Some ''2''\<rparr>,
              nmaprun_line),
             (demo_process\<lparr>state := RUNNING, starttime := PyStr ''1'',
                            nmap_version := Some ''2'',
                            stdout := nmaprun_line @ cut_line,
                            progress := PyStr ''42'', etc := PyStr ''9''\<rparr>,
              taskprogress_line)]
   \<and> map_option (snd \<circ> snd)
       (wait 4 demo_host (demo_child 0 None)
          (demo_process\<lparr>state := RUNNING, nmap_event_callback := None\<rparr>))
     = Some []"
proof -
  have a: "polls (demo_child 0 None) 3 = Some 0 \<and> empties (demo_child 0 None) 3"
    by (simp add: demo_child_def)
  have u: "[0..<3] = [0, 1, 2]" by (simp add: eval_nat_numeral)
  have cb: "nmap_event_callback demo_process = Some ''f''" by (simp add: demo_process_def)
  have "map_option (snd \<circ> snd)
       (wait 4 demo_host (demo_child 0 None) (demo_process\<lparr>state := RUNNING\<rparr>))
     = Some [(demo_process\<lparr>state := RUNNING, starttime := PyStr ''1'',
                            nmap_version := Some ''2''\<rparr>,
              nmaprun_line),
             (demo_process\<lparr>state := RUNNING, starttime := PyStr ''1'',
                            nmap_version := Some ''2'',
                            stdout := nmaprun_line @ cut_line,
                            progress := PyStr ''42'', etc := PyStr ''9''\<rparr>,
              taskprogress_line)]"
    using observer_calls
      [of "demo_child 0 None" 3 4 demo_host "demo_process\<lparr>state := RUNNING\<rparr>"] a cb
    by (auto simp: consumed_demo u runner_before_def absorb_def observer_call_def
        process_event_demo demo_process_def)
  moreover have "map_option (snd \<circ> snd)
       (wait 4 demo_host (demo_child 0 None)
          (demo_process\<lparr>state := RUNNING, nmap_event_callback := None\<rparr>))
       = Some []"
    using observer_calls
      [of "demo_child 0 None" 3 4 demo_host
          "demo_process\<lparr>state := RUNNING, nmap_event_callback := None\<rparr>"] a
    by auto
  ultimately show ?thesis using a consumed_demo by simp
qed

text \<open>
  C8 asks that the elevation prefix is empty again whenever \<^verbatim>\<open>sudo_run\<close> is over.
  The assignment that clears it is skipped when \<^verbatim>\<open>run\<close> raises: on a host where
  \<^verbatim>\<open>Popen\<close> raises \<^verbatim>\<open>OSError\<close>, and for a child that fails without a word on its
  error stream, \<^verbatim>\<open>sudo_run\<close> ends by the exception and the prefix is still set.
\<close>

theorem sudo_run_keeps_prefix_on_exception:
  "map_option fst (sudo_run 1 broken_sudo_host silent_child ''root'' demo_process)
     = Some (Inl OSError)
   \<and> map_option (sudo_run_prefix \<circ> fst \<circ> snd)
       (sudo_run 1 broken_sudo_host silent_child ''root'' demo_process)
     = Some ''/usr/bin/sudo -u root''
   \<and> map_option fst (sudo_run 1 demo_host silent_child ''root'' demo_process)
     = Some (Inl Empty)
   \<and> map_option (sudo_run_prefix \<circ> fst \<circ> snd)
       (sudo_run 1 demo_host silent_child ''root'' demo_process)
     = Some ''/usr/bin/sudo -u root''"
proof -
  have b: "run 1 broken_sudo_host silent_child
             (demo_process\<lparr>sudo_run_prefix := ''/usr/bin/sudo -u root''\<rparr>)
           = Some (Inl OSError,
                   run_init (demo_process\<lparr>sudo_run_prefix := ''/usr/bin/sudo -u root''\<rparr>)
                     \<lparr>state := FAILED\<rparr>, [])"
    by (simp add: run_def run_init_def command_line_demo broken_sudo_host_def demo_host_def
        str_split_ws_sudo)
  have d: "map_option fst (run 1 demo_host silent_child
             (demo_process\<lparr>sudo_run_prefix := ''/usr/bin/sudo -u root''\<rparr>)) = Some (Inl Empty)
      \<and> map_option (sudo_run_prefix \<circ> fst \<circ> snd) (run 1 demo_host silent_child
             (demo_process\<lparr>sudo_run_prefix := ''/usr/bin/sudo -u root''\<rparr>))
          = Some ''/usr/bin/sudo -u root''"
    by (simp add: run_def run_init_def command_line_demo demo_host_def
        str_split_ws_sudo wait_def silent_child_def resolve_def rc_def)
  have g: "getpwnam broken_sudo_host ''root''" "getpwnam demo_host ''root''"
    by (simp_all add: broken_sudo_host_def demo_host_def)
  have "map_option fst (sudo_run 1 broken_sudo_host silent_child ''root'' demo_process)
     = Some (Inl OSError)
   \<and> map_option (sudo_run_prefix \<circ> fst \<circ> snd)
       (sudo_run 1 broken_sudo_host silent_child ''root'' demo_process)
     = Some ''/usr/bin/sudo -u root''"
    using b g by (simp add: sudo_run_def str_split_ws_root whereis_demo run_init_def)
  moreover have "map_option fst (sudo_run 1 demo_host silent_child ''root'' demo_process)
     = Some (Inl Empty)
   \<and> map_option (sudo_run_prefix \<circ> fst \<circ> snd)
       (sudo_run 1 demo_host silent_child ''root'' demo_process)
     = Some ''/usr/bin/sudo -u root''"
    using d g by (auto simp: sudo_run_def str_split_ws_root whereis_demo
        split: option.splits sum.splits)
  ultimately show ?thesis by simp
qed

text \<open>
  C9, as stated, fails. A list is stored as it is given, so the construction from the
  empty list succeeds, with an empty target list.
\<close>

theorem empty_target_list_counterexample:
  "map_sum id nmap_targets (init demo_host (TList []) ''-sT'' PyNone True) = Inr []"
  by (simp add: init_def whereis_demo init_targets_def str_split_ws_def isspace_def
      unsafe_opts_def Let_def)

text \<open>
  C9, amended. After a successful construction from a string, the targets are the
  pieces of the string between its commas (spaces removed), and there is at least
  one; after a successful construction from a list they are the list as given, which
  may be empty; no construction from another object succeeds, and once nmap is found
  it fails with the exception for the targets.
\<close>

theorem init_targets_by_shape:
  "(init h targets options event_callback safe_mode = Inr self \<longrightarrow>
      (case targets of
         TStr s \<Rightarrow> nmap_targets self = str_split CHR '','' (remove_spaces s)
                   \<and> nmap_targets self \<noteq> []
       | TList l \<Rightarrow> nmap_targets self = l
       | TOther \<Rightarrow> False))
   \<and> (whereis h ''nmap'' \<noteq> None \<longrightarrow>
        init h TOther options event_callback safe_mode = Inl bad_targets)"
proof -
  have a: "init h targets options event_callback safe_mode = Inr self \<longrightarrow>
      (case targets of
         TStr s \<Rightarrow> nmap_targets self = str_split CHR '','' (remove_spaces s)
                   \<and> nmap_targets self \<noteq> []
       | TList l \<Rightarrow> nmap_targets self = l
       | TOther \<Rightarrow> False)"
    by (cases targets)
      (auto simp: init_def init_targets_def Let_def str_split_nonempty
        split: option.splits if_splits)
  have b: "whereis h ''nmap'' \<noteq> None \<longrightarrow>
        init h TOther options event_callback safe_mode = Inl bad_targets"
    by (auto simp: init_def init_targets_def)
  from a b show ?thesis by simp
qed

text \<open>
  The string \<^verbatim>\<open>"a, b"\<close>, the list of the same two targets, and an object that is
  neither.
\<close>

theorem init_targets_by_shape_witness:
  "init demo_host (TStr ''a, b'') ''-sT'' (PyCallable ''f'' True) True = Inr demo_process
   \<and> nmap_targets demo_process = str_split CHR '','' (remove_spaces ''a, b'')
   \<and> nmap_targets demo_process \<noteq> []
   \<and> init demo_host (TList [''a'', ''b'']) ''-sT'' (PyCallable ''f'' True) True = Inr demo_process
   \<and> nmap_targets demo_process = [''a'', ''b'']
   \<and> whereis demo_host ''nmap'' \<noteq> None
   \<and> init demo_host TOther ''-sT'' PyNone True = Inl bad_targets"
proof -
  from init_targets_by_shape
    [of demo_host "TStr ''a, b''" "''-sT''" "PyCallable ''f'' True" True demo_process]
    init_demo(1)
  have "nmap_targets demo_process = str_split CHR '','' (remove_spaces ''a, b'')
      \<and> nmap_targets demo_process \<noteq> []" by (simp add: str_split_nonempty)
  moreover from init_targets_by_shape
    [of demo_host "TList [''a'', ''b'']" "''-sT''" "PyCallable ''f'' True" True demo_process]
    init_demo(2)
  have "nmap_targets demo_process = [''a'', ''b'']" by simp
  moreover from init_targets_by_shape [of demo_host TOther "''-sT''" PyNone True demo_process]
  have "init demo_host TOther ''-sT'' PyNone True = Inl bad_targets"
    by (simp add: whereis_demo)
  ultimately show ?thesis using init_demo by (simp add: whereis_demo str_split_nonempty)
qed

text \<open>
  C10. With an object that is not callable as \<^verbatim>\<open>event_callback\<close> the constructor
  does what it does with \<^verbatim>\<open>None\<close>: it fails only for nmap, the targets or the
  options, and the object it builds has no observer, so no run of it calls one.
\<close>

theorem noncallable_callback_discarded:
  "init h targets options (PyOther truthy) safe_mode = init h targets options PyNone safe_mode
   \<and> (\<forall>e. init h targets options (PyOther truthy) safe_mode = Inl e \<longrightarrow>
          e = nmap_not_found \<or> e = bad_targets \<or> e = unsafe_options)
   \<and> (init h targets options (PyOther truthy) safe_mode = Inr self \<longrightarrow>
        nmap_event_callback self = None
        \<and> (run fuel h' c self = Some (res, self', called) \<longrightarrow> called = []))"
proof -
  have a: "init h targets options (PyOther truthy) safe_mode
           = init h targets options PyNone safe_mode"
    by (auto simp: init_def Let_def init_callback_def split: option.splits sum.splits)
  have b: "\<forall>e. init h targets options (PyOther truthy) safe_mode = Inl e \<longrightarrow>
          e = nmap_not_found \<or> e = bad_targets \<or> e = unsafe_options"
    by (cases targets)
      (auto simp: init_def init_targets_def Let_def split: option.splits if_splits)
  have c: "init h targets options (PyOther truthy) safe_mode = Inr self \<longrightarrow>
        nmap_event_callback self = None"
    by (auto simp: init_def init_callback_def Let_def split: option.splits sum.splits if_splits)
  from a b c run_no_callback [of self fuel h' c res self' called] show ?thesis by blast
qed

text \<open>
  A construction with a truthy object that is not callable, a run of the object, and a
  construction that fails for its targets.
\<close>

theorem noncallable_callback_discarded_witness:
  "init demo_host (TStr ''a, b'') ''-sT'' (PyOther True) True
     = Inr (demo_process\<lparr>nmap_event_callback := None\<rparr>)
   \<and> init demo_host (TStr ''a, b'') ''-sT'' PyNone True
     = Inr (demo_process\<lparr>nmap_event_callback := None\<rparr>)
   \<and> map_option (snd \<circ> snd)
       (run 4 demo_host (demo_child 0 None) (demo_process\<lparr>nmap_event_callback := None\<rparr>))
     = Some []
   \<and> init demo_host TOther ''-sT'' (PyOther True) True = Inl bad_targets"
proof -
  let ?p = "demo_process\<lparr>nmap_event_callback := None\<rparr>"
  have i: "init demo_host (TStr ''a, b'') ''-sT'' (PyOther True) True = Inr ?p"
    by (simp add: init_def whereis_demo init_targets_def remove_spaces_def str_split_def
      str_split_ws_def isspace_def unsafe_opts_def init_callback_def get_command_line_def
      lstrip_def demo_process_def)
  have t: "init demo_host TOther ''-sT'' (PyOther True) True = Inl bad_targets"
    by (simp add: init_def whereis_demo init_targets_def)
  have cl: "get_command_line ?p = '' /usr/bin/nmap -oX - -vvv --stats-every 2s -sT a b''"
    by (simp add: get_command_line_eq demo_process_def)
  have "\<exists>res self' called. run 4 demo_host (demo_child 0 None) ?p = Some (res, self', called)"
    by (rule run_returns [where n = 3 and cmd = "str_split_ws
          '' /usr/bin/nmap -oX - -vvv --stats-every 2s -sT a b''"])
      (simp_all add: cl demo_host_def demo_child_def)
  then obtain res self' called where
    r: "run 4 demo_host (demo_child 0 None) ?p = Some (res, self', called)" by blast
  from noncallable_callback_discarded
    [of demo_host "TStr ''a, b''" "''-sT''" True True ?p 4 demo_host "demo_child 0 None"
        res self' called] i r
  have "init demo_host (TStr ''a, b'') ''-sT'' PyNone True = Inr ?p \<and> called = []"
    by simp
  with i r t show ?thesis by simp
qed

end
